theory Spec2Isabelle
  imports Main "HOL-Library.Char_ord" "HOL-Library.List_Lexorder" "HOL-Library.Product_Lexorder"
    "HOL-Library.Multiset"
begin

section \<open>Errors raised by the program\<close>

text \<open>
  The exceptions that the modelled functions can let escape. \<open>IntegrityError\<close> is the
  storage layer's answer to a violated \<open>CHECK\<close> constraint, \<open>OverflowError\<close> its answer to
  an integer parameter outside the 64-bit range, \<open>AttributeError\<close> is Python's answer to
  \<open>message.from_user.id\<close> on a message without sender, and \<open>TelegramError\<close> stands for
  an exception of the platform client that no handler of the program catches.
\<close>

datatype py_error = IntegrityError | OverflowError | AttributeError | TelegramError string

section \<open>Text\<close>

text \<open>
  A Python \<open>str\<close> is a sequence of code points. A \<open>char\<close> of the model stands for the code
  point of the same number, 0 to 255; text with other code points is outside the model.
  On that range the classes below are those of \<open>str.isspace\<close>, of the pattern \<open>\w\<close> and of
  \<open>str.lower\<close>.
\<close>

definition is_space :: "char \<Rightarrow> bool" where
  "is_space c = (let n = (of_char c :: nat) in (9 \<le> n \<and> n \<le> 13) \<or> (28 \<le> n \<and> n \<le> 32) \<or> n = 133 \<or> n = 160)"

definition is_digit :: "char \<Rightarrow> bool" where
  "is_digit c = (let n = (of_char c :: nat) in 48 \<le> n \<and> n \<le> 57)"

definition is_word :: "char \<Rightarrow> bool" where
  "is_word c =
     (let n = (of_char c :: nat) in
        (48 \<le> n \<and> n \<le> 57) \<or> (65 \<le> n \<and> n \<le> 90) \<or> n = 95 \<or> (97 \<le> n \<and> n \<le> 122) \<or>
        n = 170 \<or> n = 178 \<or> n = 179 \<or> n = 181 \<or> n = 185 \<or> n = 186 \<or>
        (188 \<le> n \<and> n \<le> 190) \<or> (192 \<le> n \<and> n \<le> 214) \<or> (216 \<le> n \<and> n \<le> 246) \<or>
        (248 \<le> n \<and> n \<le> 255))"

definition lower_char :: "char \<Rightarrow> char" where
  "lower_char c =
     (let n = (of_char c :: nat) in
        if (65 \<le> n \<and> n \<le> 90) \<or> (192 \<le> n \<and> n \<le> 214) \<or> (216 \<le> n \<and> n \<le> 222)
        then char_of (n + 32) else c)"

text \<open>\<open>s.lower()\<close>, \<open>s.strip()\<close>, \<open>s.lstrip("@")\<close> and the slice \<open>s[a:b]\<close> for \<open>0 \<le> a\<close>.\<close>

definition lower :: "string \<Rightarrow> string" where
  "lower s = map lower_char s"

definition strip :: "string \<Rightarrow> string" where
  "strip s = rev (dropWhile is_space (rev (dropWhile is_space s)))"

definition lstrip_at :: "string \<Rightarrow> string" where
  "lstrip_at s = dropWhile (\<lambda>c. c = CHR ''@'') s"

definition slice :: "string \<Rightarrow> nat \<Rightarrow> nat \<Rightarrow> string" where
  "slice s a b = take (b - a) (drop a s)"

text \<open>
  \<open>re.sub(r"@\w+", "", s)\<close>: scanning from the left, every \<open>@\<close> that is followed by a word
  character is removed together with the longest run of word characters after it.
\<close>

function remove_mentions :: "string \<Rightarrow> string" where
  "remove_mentions [] = []"
| "remove_mentions (c # cs) =
     (if c = CHR ''@'' \<and> cs \<noteq> [] \<and> is_word (hd cs)
      then remove_mentions (dropWhile is_word cs)
      else c # remove_mentions cs)"
  by pat_completeness auto
termination
  by (relation "measure length") (simp_all add: length_dropWhile_le less_Suc_eq_le)

text \<open>\<open>s.split()\<close>: the maximal runs of characters that are not white space.\<close>

function split :: "string \<Rightarrow> string list" where
  "split s =
     (let s' = dropWhile is_space s
      in if s' = [] then []
         else takeWhile (\<lambda>c. \<not> is_space c) s' # split (dropWhile (\<lambda>c. \<not> is_space c) s'))"
  by pat_completeness auto
termination
proof (relation "measure length")
  show "wf (measure length)" by simp
next
  fix s s' :: string
  assume s': "s' = dropWhile is_space s" and ne: "s' \<noteq> []"
  from ne have "\<not> is_space (hd s')"
    unfolding s' by (rule hd_dropWhile)
  with ne have "dropWhile (\<lambda>c. \<not> is_space c) s' = dropWhile (\<lambda>c. \<not> is_space c) (tl s')"
    by (cases s') simp_all
  moreover have "length (dropWhile (\<lambda>c. \<not> is_space c) (tl s')) \<le> length (tl s')"
    by (rule length_dropWhile_le)
  ultimately have "length (dropWhile (\<lambda>c. \<not> is_space c) s') \<le> length (tl s')"
    by (simp only:)
  also have "\<dots> < length s'"
    using ne by (cases s') simp_all
  also have "\<dots> \<le> length s"
    unfolding s' by (rule length_dropWhile_le)
  finally show "(dropWhile (\<lambda>c. \<not> is_space c) s', s) \<in> measure length"
    by simp
qed

text \<open>
  \<open>int(s)\<close> for a text without white space: an optional sign, then decimal digits, where
  single underscores may stand between digits. \<open>None\<close> is the \<open>ValueError\<close>. The limit that
  \<open>int\<close> puts on the number of digits is above the length of any message text, and is left
  out.
\<close>

fun digits_value :: "int \<Rightarrow> string \<Rightarrow> int option" where
  "digits_value acc [] = Some acc"
| "digits_value acc (c # cs) =
     (if is_digit c then digits_value (acc * 10 + (int (of_char c) - 48)) cs
      else if c = CHR ''_'' \<and> cs \<noteq> [] \<and> is_digit (hd cs) then digits_value acc cs
      else None)"

definition unsigned_value :: "string \<Rightarrow> int option" where
  "unsigned_value s = (if s \<noteq> [] \<and> is_digit (hd s) then digits_value 0 s else None)"

definition py_int :: "string \<Rightarrow> int option" where
  "py_int s =
     (case s of
        [] \<Rightarrow> None
      | c # cs \<Rightarrow>
          if c = CHR ''-'' then map_option uminus (unsigned_value cs)
          else if c = CHR ''+'' then unsigned_value cs
          else unsigned_value s)"

section \<open>Persistent state: the two tables of \<open>db_init\<close>\<close>

text \<open>
  \<open>warns\<close>: one record per row, the columns in the order of the \<open>CREATE TABLE\<close> statement.
  \<open>created_at\<close> is the text of \<open>datetime.utcnow().isoformat()\<close>; the storage layer compares
  text columns byte by byte, which is the lexicographic order on \<open>string\<close>.
\<close>

record warn_row =
  w_id :: nat
  w_chat_id :: int
  w_user_id :: int
  w_user_name :: string
  w_warn_type :: string
  w_reason :: string
  w_given_by_id :: "int option"
  w_given_by_name :: "string option"
  w_created_at :: string

record participant_row =
  p_chat_id :: int
  p_user_id :: int
  p_username :: "string option"
  p_username_lower :: "string option"
  p_first_name :: "string option"
  p_last_name :: "string option"
  p_updated_at :: string

text \<open>
  The database file: the rows of both tables in rowid order, and the counter that
  \<open>AUTOINCREMENT\<close> keeps (the largest id ever handed out).
\<close>

record db =
  warns :: "warn_row list"
  warns_seq :: nat
  participants :: "participant_row list"

definition db_init :: db where
  "db_init = \<lparr>warns = [], warns_seq = 0, participants = []\<rparr>"

section \<open>Warning ledger\<close>

text \<open>
  \<open>add_warn\<close>: one \<open>INSERT\<close>. The \<open>CHECK (warn_type IN ('warn','hard'))\<close> constraint rejects
  any other kind, and then nothing is written. The new id is one more than the largest id
  that ever existed in the table. \<open>reason or ""\<close> stores the empty text for an absent
  reason. \<open>now\<close> is the reading of the clock.
\<close>

definition next_warn_id :: "db \<Rightarrow> nat" where
  "next_warn_id d = Suc (fold max (map w_id (warns d)) (warns_seq d))"

definition add_warn ::
  "db \<Rightarrow> int \<Rightarrow> int \<Rightarrow> string \<Rightarrow> string \<Rightarrow> string option \<Rightarrow> int option \<Rightarrow> string option
     \<Rightarrow> string \<Rightarrow> py_error + db" where
  "add_warn d chat_id user_id user_name warn_type reason given_by_id given_by_name now =
     (if warn_type \<noteq> ''warn'' \<and> warn_type \<noteq> ''hard'' then Inl IntegrityError
      else Inr (d\<lparr>warns := warns d @
                  [\<lparr>w_id = next_warn_id d, w_chat_id = chat_id, w_user_id = user_id,
                    w_user_name = user_name, w_warn_type = warn_type,
                    w_reason = (case reason of None \<Rightarrow> '''' | Some r \<Rightarrow> r),
                    w_given_by_id = given_by_id, w_given_by_name = given_by_name,
                    w_created_at = now\<rparr>],
                warns_seq := next_warn_id d\<rparr>))"

text \<open>
  \<open>WHERE chat_id = ? AND user_id = ?\<close> and \<open>ORDER BY created_at DESC, id DESC\<close>.
\<close>

definition of_pair :: "int \<Rightarrow> int \<Rightarrow> warn_row \<Rightarrow> bool" where
  "of_pair c u r = (w_chat_id r = c \<and> w_user_id r = u)"

definition recency :: "warn_row \<Rightarrow> string \<times> nat" where
  "recency r = (w_created_at r, w_id r)"

definition newest_first :: "warn_row list \<Rightarrow> warn_row list" where
  "newest_first rows = rev (sort_key recency rows)"

type_synonym warn_view = "nat \<times> string \<times> string \<times> string \<times> string option"

definition view :: "warn_row \<Rightarrow> warn_view" where
  "view r = (w_id r, w_warn_type r, w_reason r, w_created_at r, w_given_by_name r)"

definition view_id :: "warn_view \<Rightarrow> nat" where
  "view_id v = fst v"

definition view_kind :: "warn_view \<Rightarrow> string" where
  "view_kind v = fst (snd v)"

definition view_created_at :: "warn_view \<Rightarrow> string" where
  "view_created_at v = fst (snd (snd (snd v)))"

definition get_user_warns :: "db \<Rightarrow> int \<Rightarrow> int \<Rightarrow> warn_view list" where
  "get_user_warns d chat_id user_id =
     map view (newest_first (filter (of_pair chat_id user_id) (warns d)))"

text \<open>
  \<open>get_user_counts\<close>: \<open>GROUP BY warn_type\<close> yields one \<open>(warn_type, COUNT( * ))\<close> row per kind
  that occurs; the rows become a dictionary, read with default 0.
\<close>

definition group_counts :: "warn_row list \<Rightarrow> (string \<times> nat) list" where
  "group_counts rows =
     map (\<lambda>k. (k, length (filter (\<lambda>r. w_warn_type r = k) rows))) (remdups (map w_warn_type rows))"

definition dict_get :: "('k \<times> 'v) list \<Rightarrow> 'k \<Rightarrow> 'v \<Rightarrow> 'v" where
  "dict_get data k dflt = (case map_of data k of None \<Rightarrow> dflt | Some v \<Rightarrow> v)"

definition get_user_counts :: "db \<Rightarrow> int \<Rightarrow> int \<Rightarrow> nat \<times> nat" where
  "get_user_counts d chat_id user_id =
     (let data = group_counts (filter (of_pair chat_id user_id) (warns d))
      in (dict_get data ''warn'' 0, dict_get data ''hard'' 0))"

text \<open>
  \<open>amnesty_partial\<close>: \<open>DELETE ... WHERE id IN (SELECT id ... ORDER BY ... LIMIT ?)\<close>.
  A negative \<open>LIMIT\<close> is no limit for the storage layer, and an integer parameter that
  does not fit 64 bits makes the call raise before anything is deleted.
\<close>

definition sql_limit :: "int \<Rightarrow> 'a list \<Rightarrow> 'a list" where
  "sql_limit n xs = (if n < 0 then xs else take (nat n) xs)"

definition fits_int64 :: "int \<Rightarrow> bool" where
  "fits_int64 n = (- (2 ^ 63) \<le> n \<and> n < 2 ^ 63)"

definition amnesty_partial :: "db \<Rightarrow> int \<Rightarrow> int \<Rightarrow> int \<Rightarrow> string \<Rightarrow> py_error + db" where
  "amnesty_partial d chat_id user_id cnt kind =
     (if \<not> fits_int64 cnt then Inl OverflowError
      else if kind = ''warn'' \<or> kind = ''hard'' then
        (let ids = map w_id (sql_limit cnt (newest_first
                     (filter (\<lambda>r. of_pair chat_id user_id r \<and> w_warn_type r = kind) (warns d))))
         in Inr (d\<lparr>warns := filter (\<lambda>r. w_id r \<notin> set ids) (warns d)\<rparr>))
      else
        (let ids = map w_id (sql_limit cnt (newest_first
                     (filter (of_pair chat_id user_id) (warns d))))
         in Inr (d\<lparr>warns := filter (\<lambda>r. w_id r \<notin> set ids) (warns d)\<rparr>)))"

text \<open>The ids that the sub-select of \<open>amnesty_partial\<close> yields, in either branch.\<close>

definition deleted_ids :: "db \<Rightarrow> int \<Rightarrow> int \<Rightarrow> int \<Rightarrow> string \<Rightarrow> nat list" where
  "deleted_ids d c u n kind =
     (if kind = ''warn'' \<or> kind = ''hard'' then
        map w_id (sql_limit n (newest_first
                     (filter (\<lambda>r. of_pair c u r \<and> w_warn_type r = kind) (warns d))))
      else map w_id (sql_limit n (newest_first (filter (of_pair c u) (warns d)))))"


definition amnesty_full :: "db \<Rightarrow> int \<Rightarrow> int \<Rightarrow> db" where
  "amnesty_full d chat_id user_id =
     d\<lparr>warns := filter (\<lambda>r. \<not> of_pair chat_id user_id r) (warns d)\<rparr>"

subsection \<open>Sequences of insertions\<close>

text \<open>
  The arguments of one call of \<open>add_warn\<close>, with the clock reading of that call. A call
  that raises leaves the database as it was, and the next call of the sequence runs on it.
\<close>

record warn_call =
  call_chat :: int
  call_user :: int
  call_name :: string
  call_kind :: string
  call_reason :: "string option"
  call_by_id :: "int option"
  call_by_name :: "string option"
  call_now :: string

definition add_warn_call :: "db \<Rightarrow> warn_call \<Rightarrow> db" where
  "add_warn_call d x =
     (case add_warn d (call_chat x) (call_user x) (call_name x) (call_kind x) (call_reason x)
             (call_by_id x) (call_by_name x) (call_now x) of
        Inl e \<Rightarrow> d
      | Inr d' \<Rightarrow> d')"

fun add_warns :: "db \<Rightarrow> warn_call list \<Rightarrow> db" where
  "add_warns d [] = d"
| "add_warns d (x # xs) = add_warns (add_warn_call d x) xs"

subsection \<open>Constraints of the schema\<close>

text \<open>
  \<open>id INTEGER PRIMARY KEY\<close>: no two rows of \<open>warns\<close> share an id.
  \<open>CHECK (warn_type IN ('warn','hard'))\<close>: every row has one of the two kinds.
\<close>

definition primary_key :: "db \<Rightarrow> bool" where
  "primary_key d = distinct (map w_id (warns d))"

definition check_kind :: "db \<Rightarrow> bool" where
  "check_kind d = list_all (\<lambda>r. w_warn_type r = ''warn'' \<or> w_warn_type r = ''hard'') (warns d)"

text \<open>The order of the listing, read off the listed tuples: later text first, larger id
  first among equal texts.\<close>

definition newer :: "warn_view \<Rightarrow> warn_view \<Rightarrow> bool" where
  "newer a b =
     (view_created_at b < view_created_at a \<or>
      (view_created_at a = view_created_at b \<and> view_id b < view_id a))"

text \<open>The sort key of \<open>ORDER BY created_at DESC, id DESC\<close>, read off a listed tuple.\<close>

definition view_recency :: "warn_view \<Rightarrow> string \<times> nat" where
  "view_recency v = (view_created_at v, view_id v)"

section \<open>Participant directory\<close>

text \<open>
  The fields of the platform's user object that the program reads; \<open>full_name\<close> is the
  first name, followed by a blank and the last name when there is one.
\<close>

record user =
  u_id :: int
  u_username :: "string option"
  u_first_name :: string
  u_last_name :: "string option"

definition full_name :: "user \<Rightarrow> string" where
  "full_name usr =
     (case u_last_name usr of
        None \<Rightarrow> u_first_name usr
      | Some l \<Rightarrow> if l = [] then u_first_name usr else u_first_name usr @ '' '' @ l)"

text \<open>\<open>x or None\<close> on an optional text: the empty text counts as absent.\<close>

definition or_none :: "string option \<Rightarrow> string option" where
  "or_none x = (case x of None \<Rightarrow> None | Some s \<Rightarrow> if s = [] then None else Some s)"

text \<open>
  \<open>INSERT ... ON CONFLICT(chat_id, user_id) DO UPDATE\<close>: the row of the same chat and user
  is overwritten where it stands, every column but the key taking the new value; without
  such a row the new row is added at the end.
\<close>

fun upsert_row :: "participant_row \<Rightarrow> participant_row list \<Rightarrow> participant_row list" where
  "upsert_row r [] = [r]"
| "upsert_row r (x # xs) =
     (if p_chat_id x = p_chat_id r \<and> p_user_id x = p_user_id r then r # xs
      else x # upsert_row r xs)"

definition participant_upsert :: "db \<Rightarrow> int \<Rightarrow> user option \<Rightarrow> string \<Rightarrow> db" where
  "participant_upsert d chat_id usr now =
     (case usr of
        None \<Rightarrow> d
      | Some v \<Rightarrow>
          (let username = or_none (u_username v);
               username_lower = or_none (Some (lower (case username of None \<Rightarrow> [] | Some s \<Rightarrow> s)));
               first_name = or_none (Some (u_first_name v));
               last_name = or_none (u_last_name v)
           in d\<lparr>participants :=
                  upsert_row \<lparr>p_chat_id = chat_id, p_user_id = u_id v, p_username = username,
                              p_username_lower = username_lower, p_first_name = first_name,
                              p_last_name = last_name, p_updated_at = now\<rparr>
                    (participants d)\<rparr>))"

text \<open>
  \<open>find_participant_by_username\<close>: \<open>fetchone()\<close> takes the first row of the chat whose
  \<open>username_lower\<close> is the given text (a column that is \<open>NULL\<close> equals nothing); the rows
  are met in rowid order. The result is the object with the fields \<open>id\<close> and \<open>full_name\<close>.
\<close>

record found =
  f_id :: int
  f_full_name :: string

definition join_names :: "string option \<Rightarrow> string option \<Rightarrow> string" where
  "join_names first_name last_name =
     (case (or_none first_name, or_none last_name) of
        (None, None) \<Rightarrow> []
      | (Some a, None) \<Rightarrow> a
      | (None, Some b) \<Rightarrow> b
      | (Some a, Some b) \<Rightarrow> a @ '' '' @ b)"

definition found_of_row :: "participant_row \<Rightarrow> found" where
  "found_of_row r =
     \<lparr>f_id = p_user_id r,
      f_full_name =
        (let joined = join_names (p_first_name r) (p_last_name r)
         in if joined \<noteq> [] then joined
            else case or_none (p_username r) of None \<Rightarrow> ''user'' | Some n \<Rightarrow> ''@'' @ n)\<rparr>"

definition find_participant_by_username :: "db \<Rightarrow> int \<Rightarrow> string \<Rightarrow> found option" where
  "find_participant_by_username d chat_id username_lower =
     (case filter (\<lambda>r. p_chat_id r = chat_id \<and> p_username_lower r = Some username_lower)
             (participants d) of
        [] \<Rightarrow> None
      | row # _ \<Rightarrow> Some (found_of_row row))"

section \<open>Target resolver\<close>

text \<open>
  The fields of an incoming message that the program reads. Every element of \<open>entities\<close>
  is a \<open>MessageEntity\<close>, so the \<open>isinstance\<close> test of the source always holds.
\<close>

record message_entity =
  e_type :: string
  e_offset :: nat
  e_length :: nat
  e_user :: "user option"

record reply_message =
  r_from_user :: "user option"

record message =
  m_from_user :: "user option"
  m_chat_id :: int
  m_chat_type :: string
  m_reply_to_message :: "reply_message option"
  m_entities :: "message_entity list option"
  m_text :: "string option"
  m_caption :: "string option"

text \<open>\<open>message.text or message.caption or ""\<close>.\<close>

definition text_of :: "message \<Rightarrow> string" where
  "text_of m =
     (case or_none (m_text m) of
        Some t \<Rightarrow> t
      | None \<Rightarrow> (case or_none (m_caption m) of Some c \<Rightarrow> c | None \<Rightarrow> []))"

text \<open>\<open>message.entities\<close>, the empty list when it is absent.\<close>

definition entities_of :: "message \<Rightarrow> message_entity list" where
  "entities_of m = (case m_entities m of None \<Rightarrow> [] | Some es \<Rightarrow> es)"

definition extract_mention_username :: "message \<Rightarrow> string option" where
  "extract_mention_username m =
     (if entities_of m = [] then None
      else
        (let text = text_of m;
             mentions = map (\<lambda>ent. slice text (e_offset ent) (e_offset ent + e_length ent))
                          (filter (\<lambda>ent. e_type ent = ''mention'') (entities_of m))
         in if mentions = [] then None
            else or_none (Some (strip (lstrip_at (last mentions))))))"

text \<open>
  What \<open>extract_target_user\<close> returns: the platform's user object of the first two
  strategies, or the object built by \<open>find_participant_by_username\<close>.
\<close>

datatype target = User user | Namespace found

definition target_id :: "target \<Rightarrow> int" where
  "target_id t = (case t of User v \<Rightarrow> u_id v | Namespace f \<Rightarrow> f_id f)"

definition target_full_name :: "target \<Rightarrow> string" where
  "target_full_name t = (case t of User v \<Rightarrow> full_name v | Namespace f \<Rightarrow> f_full_name f)"

definition reply_author :: "message \<Rightarrow> user option" where
  "reply_author m = (case m_reply_to_message m of None \<Rightarrow> None | Some r \<Rightarrow> r_from_user r)"

definition text_mention_user :: "message \<Rightarrow> user option" where
  "text_mention_user m =
     (case find (\<lambda>ent. e_type ent = ''text_mention'' \<and> e_user ent \<noteq> None) (entities_of m) of
        None \<Rightarrow> None
      | Some ent \<Rightarrow> e_user ent)"

definition extract_target_user :: "db \<Rightarrow> message \<Rightarrow> target option" where
  "extract_target_user d m =
     (case reply_author m of
        Some author \<Rightarrow> Some (User author)
      | None \<Rightarrow>
          (case text_mention_user m of
             Some v \<Rightarrow> Some (User v)
           | None \<Rightarrow>
               (case extract_mention_username m of
                  None \<Rightarrow> None
                | Some uname \<Rightarrow>
                    (case find_participant_by_username d (m_chat_id m) (lower uname) of
                       None \<Rightarrow> None
                     | Some f \<Rightarrow> Some (Namespace f)))))"

text \<open>\<open>track_message_participants\<close>: the author, then the author of the message replied to;
  \<open>now1\<close> and \<open>now2\<close> are the clock readings of the two upserts.\<close>

definition track_message_participants :: "db \<Rightarrow> message \<Rightarrow> string \<Rightarrow> string \<Rightarrow> db" where
  "track_message_participants d m now1 now2 =
     (let d1 = (case m_from_user m of None \<Rightarrow> d
                | Some v \<Rightarrow> participant_upsert d (m_chat_id m) (Some v) now1)
      in case reply_author m of None \<Rightarrow> d1
         | Some a \<Rightarrow> participant_upsert d1 (m_chat_id m) (Some a) now2)"

section \<open>Access guard\<close>

definition ALLOWED_USER_IDS :: "int list" where
  "ALLOWED_USER_IDS = [578664673, 921799469, 5253999365, 824111058]"

definition is_allowed :: "int option \<Rightarrow> bool" where
  "is_allowed user_id = (case user_id of None \<Rightarrow> False | Some i \<Rightarrow> i \<in> set ALLOWED_USER_IDS)"

text \<open>
  What \<open>bot.get_chat_member(chat_id, user_id)\<close> does: it returns a member, of which the
  program reads the status, or it raises \<open>TelegramBadRequest\<close>, or it raises another
  exception, named by its class. The platform is a parameter of the model: a function from
  chat and user to this outcome.
\<close>

datatype chat_member_outcome = Member string | Raises_TelegramBadRequest | Raises_other string

type_synonym bot = "int \<Rightarrow> int \<Rightarrow> chat_member_outcome"

text \<open>\<open>is_admin\<close>: the \<open>except\<close> clause names \<open>TelegramBadRequest\<close> alone.\<close>

definition is_admin :: "bot \<Rightarrow> int \<Rightarrow> int \<Rightarrow> py_error + bool" where
  "is_admin b chat_id user_id =
     (case b chat_id user_id of
        Member status \<Rightarrow> Inr (status = ''administrator'' \<or> status = ''creator'')
      | Raises_TelegramBadRequest \<Rightarrow> Inr False
      | Raises_other name \<Rightarrow> Inl (TelegramError name))"

section \<open>Command handlers\<close>

text \<open>
  A reply stands for the text that \<open>message.answer\<close> sends: one constructor for each text
  of the source, in the order of the source, with the values that the text interpolates.
  The markup of the text is not modelled, and sending is taken to succeed.
\<close>

datatype reply =
    Access_denied
  | Greeting
  | Help_text
  | Groups_only
  | Admins_only_warn
  | Whom_warn
  | Warn_issued int string string
  | Admins_only_hardwarn
  | Whom_hardwarn
  | Hardwarn_issued int string string
  | No_warns int string
  | Warn_list int string nat nat "warn_view list" "nat option"
  | No_warns_in_chat
  | Chat_summary "(int \<times> string \<times> nat \<times> nat) list"
  | Admins_only_amnesty
  | Whom_amnesty
  | Bad_arguments
  | Amnesty_applied int string int string nat nat
  | Whom_full_amnesty
  | Full_amnesty_applied int string

text \<open>
  What a handler leaves behind: the database, the replies sent, and the exception that
  ended the handler, if one did. What was written before an exception stays written,
  since every storage call commits on its own.
\<close>

record outcome =
  o_db :: db
  o_replies :: "reply list"
  o_error :: "py_error option"

definition answered :: "db \<Rightarrow> reply \<Rightarrow> outcome" where
  "answered d r = \<lparr>o_db = d, o_replies = [r], o_error = None\<rparr>"

definition raised :: "db \<Rightarrow> py_error \<Rightarrow> outcome" where
  "raised d e = \<lparr>o_db = d, o_replies = [], o_error = Some e\<rparr>"

record command_object =
  cmd_args :: "string option"

text \<open>\<open>clean_reason(command.args if command else None)\<close>.\<close>

definition command_args :: "command_object option \<Rightarrow> string option" where
  "command_args command = (case command of None \<Rightarrow> None | Some c \<Rightarrow> cmd_args c)"

definition clean_reason :: "string option \<Rightarrow> string" where
  "clean_reason args =
     (case or_none args of None \<Rightarrow> [] | Some a \<Rightarrow> strip (remove_mentions a))"

text \<open>\<open>getattr(target, "full_name", None) or "user"\<close>.\<close>

definition name_or_user :: "target \<Rightarrow> string" where
  "name_or_user t = (if target_full_name t = [] then ''user'' else target_full_name t)"

text \<open>
  In every handler \<open>clock k\<close> is the reading of \<open>datetime.utcnow()\<close> at the \<open>k\<close>-th place
  where the handler reads the clock: the two upserts of \<open>track_message_participants\<close>,
  then \<open>add_warn\<close>.
\<close>

definition on_start :: "(nat \<Rightarrow> string) \<Rightarrow> message \<Rightarrow> db \<Rightarrow> outcome" where
  "on_start clock m d =
     (case m_from_user m of
        None \<Rightarrow> raised d AttributeError
      | Some sender \<Rightarrow>
          if \<not> is_allowed (Some (u_id sender)) then answered d Access_denied
          else answered (track_message_participants d m (clock 0) (clock 1)) Greeting)"

definition on_help :: "(nat \<Rightarrow> string) \<Rightarrow> message \<Rightarrow> db \<Rightarrow> outcome" where
  "on_help clock m d =
     (case m_from_user m of
        None \<Rightarrow> raised d AttributeError
      | Some sender \<Rightarrow>
          if \<not> is_allowed (Some (u_id sender)) then answered d Access_denied
          else answered (track_message_participants d m (clock 0) (clock 1)) Help_text)"

definition cmd_warn ::
  "bot \<Rightarrow> (nat \<Rightarrow> string) \<Rightarrow> message \<Rightarrow> command_object option \<Rightarrow> db \<Rightarrow> outcome" where
  "cmd_warn b clock m command d =
     (case m_from_user m of
        None \<Rightarrow> raised d AttributeError
      | Some sender \<Rightarrow>
          if \<not> is_allowed (Some (u_id sender)) then answered d Access_denied
          else
            (let d1 = track_message_participants d m (clock 0) (clock 1)
             in if m_chat_type m \<noteq> ''group'' \<and> m_chat_type m \<noteq> ''supergroup''
                then answered d1 Groups_only
                else
                  (case is_admin b (m_chat_id m) (u_id sender) of
                     Inl e \<Rightarrow> raised d1 e
                   | Inr admin \<Rightarrow>
                       if \<not> admin then answered d1 Admins_only_warn
                       else
                         (case extract_target_user d1 m of
                            None \<Rightarrow> answered d1 Whom_warn
                          | Some t \<Rightarrow>
                              (let reason = clean_reason (command_args command)
                               in case add_warn d1 (m_chat_id m) (target_id t) (name_or_user t)
                                         ''warn'' (Some reason) (Some (u_id sender))
                                         (Some (full_name sender)) (clock 2) of
                                    Inl e \<Rightarrow> raised d1 e
                                  | Inr d2 \<Rightarrow>
                                      answered d2
                                        (Warn_issued (target_id t) (name_or_user t) reason))))))"

definition cmd_hardwarn ::
  "bot \<Rightarrow> (nat \<Rightarrow> string) \<Rightarrow> message \<Rightarrow> command_object option \<Rightarrow> db \<Rightarrow> outcome" where
  "cmd_hardwarn b clock m command d =
     (case m_from_user m of
        None \<Rightarrow> raised d AttributeError
      | Some sender \<Rightarrow>
          if \<not> is_allowed (Some (u_id sender)) then answered d Access_denied
          else
            (let d1 = track_message_participants d m (clock 0) (clock 1)
             in if m_chat_type m \<noteq> ''group'' \<and> m_chat_type m \<noteq> ''supergroup''
                then answered d1 Groups_only
                else
                  (case is_admin b (m_chat_id m) (u_id sender) of
                     Inl e \<Rightarrow> raised d1 e
                   | Inr admin \<Rightarrow>
                       if \<not> admin then answered d1 Admins_only_hardwarn
                       else
                         (case extract_target_user d1 m of
                            None \<Rightarrow> answered d1 Whom_hardwarn
                          | Some t \<Rightarrow>
                              (let reason = clean_reason (command_args command)
                               in case add_warn d1 (m_chat_id m) (target_id t) (name_or_user t)
                                         ''hard'' (Some reason) (Some (u_id sender))
                                         (Some (full_name sender)) (clock 2) of
                                    Inl e \<Rightarrow> raised d1 e
                                  | Inr d2 \<Rightarrow>
                                      answered d2
                                        (Hardwarn_issued (target_id t) (name_or_user t) reason))))))"

text \<open>
  \<open>cmd_warns\<close>: \<open>user = target or message.from_user\<close>; at most 20 rows are shown and the
  number of the others is reported.
\<close>

definition cmd_warns :: "(nat \<Rightarrow> string) \<Rightarrow> message \<Rightarrow> db \<Rightarrow> outcome" where
  "cmd_warns clock m d =
     (case m_from_user m of
        None \<Rightarrow> raised d AttributeError
      | Some sender \<Rightarrow>
          if \<not> is_allowed (Some (u_id sender)) then answered d Access_denied
          else
            (let d1 = track_message_participants d m (clock 0) (clock 1);
                 usr = (case extract_target_user d1 m of None \<Rightarrow> User sender | Some t \<Rightarrow> t);
                 rows = get_user_warns d1 (m_chat_id m) (target_id usr);
                 counts = get_user_counts d1 (m_chat_id m) (target_id usr)
             in if rows = [] then answered d1 (No_warns (target_id usr) (target_full_name usr))
                else answered d1
                       (Warn_list (target_id usr) (target_full_name usr) (fst counts) (snd counts)
                          (take 20 rows)
                          (if 20 < length rows then Some (length rows - 20) else None))))"

text \<open>
  \<open>get_all_counts\<close>: one row per user of the chat, with the largest stored name and the
  two counts, ordered by the total and then by the severe count, both descending. The
  storage layer leaves the order among ties open; here ties stand in the order of the
  user ids.
\<close>

definition get_all_counts :: "db \<Rightarrow> int \<Rightarrow> (int \<times> string \<times> nat \<times> nat) list" where
  "get_all_counts d chat_id =
     (let rows = filter (\<lambda>r. w_chat_id r = chat_id) (warns d);
          groups = map (\<lambda>u. let g = filter (\<lambda>r. w_user_id r = u) rows
                            in (u, fold max (map w_user_name g) [],
                                length (filter (\<lambda>r. w_warn_type r = ''warn'') g),
                                length (filter (\<lambda>r. w_warn_type r = ''hard'') g)))
                     (sort (remdups (map w_user_id rows)))
      in sort_key (\<lambda>(u, n, w, h). (- int (w + h), - int h)) groups)"

definition cmd_allwarns :: "(nat \<Rightarrow> string) \<Rightarrow> message \<Rightarrow> db \<Rightarrow> outcome" where
  "cmd_allwarns clock m d =
     (case m_from_user m of
        None \<Rightarrow> raised d AttributeError
      | Some sender \<Rightarrow>
          if \<not> is_allowed (Some (u_id sender)) then answered d Access_denied
          else
            (let d1 = track_message_participants d m (clock 0) (clock 1);
                 data = get_all_counts d1 (m_chat_id m)
             in if data = [] then answered d1 No_warns_in_chat
                else answered d1 (Chat_summary data)))"

text \<open>
  The arguments of \<open>/amnesty\<close>: the count is \<open>int(parts[0])\<close>, absent when that raises; the
  kind is \<open>parts[1].lower()\<close> when that is one of the three scope words, and \<open>all\<close> in every
  other case.
\<close>

definition amnesty_parts :: "command_object option \<Rightarrow> string list" where
  "amnesty_parts command =
     (let args = strip (case command_args command of None \<Rightarrow> [] | Some a \<Rightarrow> a)
      in if args = [] then [] else split (remove_mentions args))"

definition amnesty_count :: "string list \<Rightarrow> int option" where
  "amnesty_count parts = (case parts of [] \<Rightarrow> None | p # _ \<Rightarrow> py_int p)"

definition amnesty_kind :: "string list \<Rightarrow> string" where
  "amnesty_kind parts =
     (if 2 \<le> length parts \<and> lower (parts ! 1) \<in> set [''warn'', ''hard'', ''all'']
      then lower (parts ! 1) else ''all'')"

definition cmd_amnesty ::
  "bot \<Rightarrow> (nat \<Rightarrow> string) \<Rightarrow> message \<Rightarrow> command_object option \<Rightarrow> db \<Rightarrow> outcome" where
  "cmd_amnesty b clock m command d =
     (case m_from_user m of
        None \<Rightarrow> raised d AttributeError
      | Some sender \<Rightarrow>
          if \<not> is_allowed (Some (u_id sender)) then answered d Access_denied
          else
            (let d1 = track_message_participants d m (clock 0) (clock 1)
             in if m_chat_type m \<noteq> ''group'' \<and> m_chat_type m \<noteq> ''supergroup''
                then answered d1 Groups_only
                else
                  (case is_admin b (m_chat_id m) (u_id sender) of
                     Inl e \<Rightarrow> raised d1 e
                   | Inr admin \<Rightarrow>
                       if \<not> admin then answered d1 Admins_only_amnesty
                       else
                         (case extract_target_user d1 m of
                            None \<Rightarrow> answered d1 Whom_amnesty
                          | Some t \<Rightarrow>
                              (let parts = amnesty_parts command;
                                   kind = amnesty_kind parts
                               in case amnesty_count parts of
                                    None \<Rightarrow> answered d1 Bad_arguments
                                  | Some cnt \<Rightarrow>
                                      if cnt \<le> 0 then answered d1 Bad_arguments
                                      else
                                        (case amnesty_partial d1 (m_chat_id m) (target_id t) cnt kind of
                                           Inl e \<Rightarrow> raised d1 e
                                         | Inr d2 \<Rightarrow>
                                             (let counts = get_user_counts d2 (m_chat_id m) (target_id t)
                                              in answered d2
                                                   (Amnesty_applied (target_id t) (name_or_user t) cnt
                                                      kind (fst counts) (snd counts)))))))))"

definition cmd_full_amnesty :: "bot \<Rightarrow> (nat \<Rightarrow> string) \<Rightarrow> message \<Rightarrow> db \<Rightarrow> outcome" where
  "cmd_full_amnesty b clock m d =
     (case m_from_user m of
        None \<Rightarrow> raised d AttributeError
      | Some sender \<Rightarrow>
          if \<not> is_allowed (Some (u_id sender)) then answered d Access_denied
          else
            (let d1 = track_message_participants d m (clock 0) (clock 1)
             in if m_chat_type m \<noteq> ''group'' \<and> m_chat_type m \<noteq> ''supergroup''
                then answered d1 Groups_only
                else
                  (case is_admin b (m_chat_id m) (u_id sender) of
                     Inl e \<Rightarrow> raised d1 e
                   | Inr admin \<Rightarrow>
                       if \<not> admin then answered d1 Admins_only_amnesty
                       else
                         (case extract_target_user d1 m of
                            None \<Rightarrow> answered d1 Whom_full_amnesty
                          | Some t \<Rightarrow>
                              answered (amnesty_full d1 (m_chat_id m) (target_id t))
                                (Full_amnesty_applied (target_id t) (name_or_user t))))))"

text \<open>The router: the handler registered for each command.\<close>

datatype command_name =
  Start | Help | Warn | Hardwarn | Warns | Allwarns | Amnesty | Fullamnesty

fun handle ::
  "command_name \<Rightarrow> bot \<Rightarrow> (nat \<Rightarrow> string) \<Rightarrow> message \<Rightarrow> command_object option \<Rightarrow> db \<Rightarrow> outcome"
  where
  "handle Start b clock m command d = on_start clock m d"
| "handle Help b clock m command d = on_help clock m d"
| "handle Warn b clock m command d = cmd_warn b clock m command d"
| "handle Hardwarn b clock m command d = cmd_hardwarn b clock m command d"
| "handle Warns b clock m command d = cmd_warns clock m d"
| "handle Allwarns b clock m command d = cmd_allwarns clock m d"
| "handle Amnesty b clock m command d = cmd_amnesty b clock m command d"
| "handle Fullamnesty b clock m command d = cmd_full_amnesty b clock m d"

text \<open>The commands behind the administrator check, and the reply of each when the
  sender is no administrator and when no target is found.\<close>

fun mutating :: "command_name \<Rightarrow> bool" where
  "mutating Warn = True"
| "mutating Hardwarn = True"
| "mutating Amnesty = True"
| "mutating Fullamnesty = True"
| "mutating c = False"

fun admins_only_reply :: "command_name \<Rightarrow> reply" where
  "admins_only_reply Warn = Admins_only_warn"
| "admins_only_reply Hardwarn = Admins_only_hardwarn"
| "admins_only_reply c = Admins_only_amnesty"


section \<open>Examples\<close>

text \<open>
  Chat 10, where user 7 has three standard warnings and one severe one and user 8 has one
  standard warning; the second and third row carry the same timestamp.
\<close>

definition ex_row :: "nat \<Rightarrow> int \<Rightarrow> string \<Rightarrow> string \<Rightarrow> string \<Rightarrow> warn_row" where
  "ex_row i u k why t =
     \<lparr>w_id = i, w_chat_id = 10, w_user_id = u, w_user_name = ''dave'', w_warn_type = k,
      w_reason = why, w_given_by_id = Some 578664673, w_given_by_name = Some ''admin'',
      w_created_at = t\<rparr>"

definition ex_ledger :: db where
  "ex_ledger =
     \<lparr>warns = [ex_row 1 7 ''warn'' ''late'' ''2024-05-01T10:00:00'',
               ex_row 2 7 ''hard'' ''spam'' ''2024-05-02T09:30:00.250000'',
               ex_row 3 7 ''warn'' ''flood'' ''2024-05-02T09:30:00.250000'',
               ex_row 4 8 ''warn'' ''caps'' ''2024-05-03T08:00:00'',
               ex_row 5 7 ''warn'' ''offtopic'' ''2024-05-04T12:00:00''],
      warns_seq = 5, participants = []\<rparr>"

text \<open>
  Users: Ann is on the allow-list; Rob was seen in chat 10 while he held the handle that Bob
  holds now. A clock, and three platforms: one where every sender is an ordinary member,
  one where every sender is an administrator, one whose membership query fails with a
  network error.
\<close>

definition ex_ann :: user where
  "ex_ann = \<lparr>u_id = 578664673, u_username = Some ''Ann_A'', u_first_name = ''Ann'', u_last_name = None\<rparr>"

definition ex_bob :: user where
  "ex_bob = \<lparr>u_id = 2002, u_username = Some ''Bob'', u_first_name = ''Bob'', u_last_name = Some ''Stone''\<rparr>"

definition ex_rob :: user where
  "ex_rob = \<lparr>u_id = 1001, u_username = Some ''bob'', u_first_name = ''Rob'', u_last_name = None\<rparr>"

definition ex_directory :: db where
  "ex_directory = participant_upsert db_init 10 (Some ex_rob) ''2024-04-01T08:00:00''"

definition ex_clock :: "nat \<Rightarrow> string" where
  "ex_clock k = ''2024-05-05T10:00:00''"

definition ex_members :: bot where
  "ex_members c u = Member ''member''"

definition ex_admins :: bot where
  "ex_admins c u = Member ''administrator''"



text \<open>Messages of Ann in the group 10: a bare command; a command that mentions
  \<open>@Bob\<close>; a reply to a message of Bob that also mentions \<open>@bob\<close>.\<close>

definition ex_command_entity :: "nat \<Rightarrow> message_entity" where
  "ex_command_entity n = \<lparr>e_type = ''bot_command'', e_offset = 0, e_length = n, e_user = None\<rparr>"

definition ex_bare :: "string \<Rightarrow> message" where
  "ex_bare t =
     \<lparr>m_from_user = Some ex_ann, m_chat_id = 10, m_chat_type = ''group'',
      m_reply_to_message = None, m_entities = Some [ex_command_entity (length t)],
      m_text = Some t, m_caption = None\<rparr>"

definition ex_mention :: "string \<Rightarrow> nat \<Rightarrow> nat \<Rightarrow> message" where
  "ex_mention t off len =
     \<lparr>m_from_user = Some ex_ann, m_chat_id = 10, m_chat_type = ''group'',
      m_reply_to_message = None,
      m_entities = Some [ex_command_entity 5,
                         \<lparr>e_type = ''mention'', e_offset = off, e_length = len, e_user = None\<rparr>],
      m_text = Some t, m_caption = None\<rparr>"

definition ex_reply :: message where
  "ex_reply = (ex_mention ''/warn @bob late'' 6 4)
                \<lparr>m_reply_to_message := Some \<lparr>r_from_user = Some ex_bob\<rparr>\<rparr>"




section \<open>Properties of the warning ledger\<close>

subsection \<open>Counting\<close>

lemma dict_get_group_counts:
  "dict_get (group_counts rows) k 0 = length (filter (\<lambda>r. w_warn_type r = k) rows)"
proof (cases "k \<in> set (map w_warn_type rows)")
  case True
  then show ?thesis
    by (simp add: dict_get_def group_counts_def map_of_map_restrict)
next
  case False
  then have "filter (\<lambda>r. w_warn_type r = k) rows = []"
    by (auto simp: filter_empty_conv)
  with False show ?thesis
    by (simp add: dict_get_def group_counts_def map_of_map_restrict)
qed

lemma get_user_counts_eq:
  "get_user_counts d c u =
     (length (filter (\<lambda>r. of_pair c u r \<and> w_warn_type r = ''warn'') (warns d)),
      length (filter (\<lambda>r. of_pair c u r \<and> w_warn_type r = ''hard'') (warns d)))"
  by (simp add: get_user_counts_def Let_def dict_get_group_counts conj_commute)

lemma warns_add_warn_call:
  "warns (add_warn_call d x) =
     (if call_kind x = ''warn'' \<or> call_kind x = ''hard''
      then warns d @ [\<lparr>w_id = next_warn_id d, w_chat_id = call_chat x, w_user_id = call_user x,
                    w_user_name = call_name x, w_warn_type = call_kind x,
                    w_reason = (case call_reason x of None \<Rightarrow> '''' | Some r \<Rightarrow> r),
                    w_given_by_id = call_by_id x, w_given_by_name = call_by_name x,
                    w_created_at = call_now x\<rparr>]
      else warns d)"
  by (auto simp: add_warn_call_def add_warn_def)

lemma count_add_warn_call:
  "length (filter (\<lambda>r. of_pair c u r \<and> w_warn_type r = k) (warns (add_warn_call d x))) =
     length (filter (\<lambda>r. of_pair c u r \<and> w_warn_type r = k) (warns d)) +
     (if call_chat x = c \<and> call_user x = u \<and> call_kind x = k \<and> (k = ''warn'' \<or> k = ''hard'')
      then 1 else 0)"
  by (auto simp: warns_add_warn_call of_pair_def)

lemma count_add_warns:
  "k = ''warn'' \<or> k = ''hard'' \<Longrightarrow>
   length (filter (\<lambda>r. of_pair c u r \<and> w_warn_type r = k) (warns (add_warns d xs))) =
     length (filter (\<lambda>r. of_pair c u r \<and> w_warn_type r = k) (warns d)) +
     length (filter (\<lambda>x. call_chat x = c \<and> call_user x = u \<and> call_kind x = k) xs)"
proof (induction xs arbitrary: d)
  case Nil
  then show ?case by simp
next
  case (Cons x xs)
  show ?case
    using Cons.prems by (simp add: Cons.IH count_add_warn_call)
qed

subsection \<open>The listing order\<close>

lemma newest_first_filter: "newest_first (filter P xs) = filter P (newest_first xs)"
  by (simp add: newest_first_def rev_filter [symmetric] filter_sort)

lemma mset_newest_first: "mset (newest_first xs) = mset xs"
  by (simp add: newest_first_def)

lemma set_newest_first: "set (newest_first xs) = set xs"
  by (simp add: newest_first_def)

lemma length_newest_first: "length (newest_first xs) = length xs"
  by (simp add: newest_first_def)


lemma view_kind_view: "view_kind (view r) = w_warn_type r"
  by (simp add: view_kind_def view_def)

lemma view_id_view: "view_id (view r) = w_id r"
  by (simp add: view_id_def view_def)

lemma view_created_at_view: "view_created_at (view r) = w_created_at r"
  by (simp add: view_created_at_def view_def)

lemma kinds_of_listing:
  "filter (\<lambda>v. view_kind v = k) (get_user_warns d c u) =
     map view (newest_first (filter (\<lambda>r. of_pair c u r \<and> w_warn_type r = k) (warns d)))"
proof -
  have "filter (\<lambda>v. view_kind v = k) (map view xs) = map view (filter (\<lambda>r. w_warn_type r = k) xs)" for xs
    by (induction xs) (simp_all add: view_kind_view)
  then show ?thesis
    by (simp add: get_user_warns_def newest_first_filter [symmetric])
qed

lemma counts_listing:
  "get_user_counts d c u =
     (length (filter (\<lambda>v. view_kind v = ''warn'') (get_user_warns d c u)),
      length (filter (\<lambda>v. view_kind v = ''hard'') (get_user_warns d c u)))"
  by (simp only: get_user_counts_eq kinds_of_listing length_newest_first length_map)


subsection \<open>Deleting the rows whose key is among the first \<open>n\<close>\<close>




lemma amnesty_partial_eq:
  "fits_int64 n \<Longrightarrow> amnesty_partial d c u n kind =
     Inr (d\<lparr>warns := filter (\<lambda>r. w_id r \<notin> set (deleted_ids d c u n kind)) (warns d)\<rparr>)"
  by (simp add: amnesty_partial_def deleted_ids_def Let_def)







subsection \<open>Partial amnesty\<close>





lemma check_kind_filter:
  "check_kind d \<Longrightarrow> check_kind (d\<lparr>warns := filter Q (warns d)\<rparr>)"
  by (simp add: check_kind_def list_all_iff)

lemma primary_key_filter:
  "primary_key d \<Longrightarrow> primary_key (d\<lparr>warns := filter Q (warns d)\<rparr>)"
  by (simp add: primary_key_def distinct_map_filter)



subsection \<open>Counts after insertions\<close>

text \<open>
  Claim C3. After any sequence of \<open>add_warn\<close> calls, \<open>get_user_counts\<close> of a pair is the pair
  of the numbers of calls made for that chat and user with kind \<open>warn\<close> and with kind
  \<open>hard\<close>, added to the counts before the sequence: calls for another chat or user do
  not count, and on the empty database the result is these two numbers, 0 for a kind that
  was never inserted.
\<close>

theorem get_user_counts_after_inserts:
  "get_user_counts (add_warns d calls) c u =
     (fst (get_user_counts d c u) +
        length (filter (\<lambda>x. call_chat x = c \<and> call_user x = u \<and> call_kind x = ''warn'') calls),
      snd (get_user_counts d c u) +
        length (filter (\<lambda>x. call_chat x = c \<and> call_user x = u \<and> call_kind x = ''hard'') calls))
   \<and> get_user_counts (add_warns db_init calls) c u =
     (length (filter (\<lambda>x. call_chat x = c \<and> call_user x = u \<and> call_kind x = ''warn'') calls),
      length (filter (\<lambda>x. call_chat x = c \<and> call_user x = u \<and> call_kind x = ''hard'') calls))
   \<and> get_user_counts db_init c u = (0, 0)"
  by (simp add: get_user_counts_eq count_add_warns db_init_def)

subsection \<open>The listing is newest first\<close>


lemma newer_iff: "newer a b \<longleftrightarrow> view_recency b < view_recency a"
  by (auto simp: newer_def view_recency_def)

lemma newer_eq: "newer = (\<lambda>a b. view_recency b < view_recency a)"
  by (simp add: fun_eq_iff newer_iff)

lemma view_recency_view: "view_recency (view r) = recency r"
  by (simp add: view_recency_def recency_def view_created_at_view view_id_view)

lemma distinct_map_snd_comp:
  "distinct (map (\<lambda>x. g (f x)) xs) \<Longrightarrow> distinct (map f xs)"
  by (induction xs) auto

lemma distinct_recency:
  "distinct (map w_id xs) \<Longrightarrow> distinct (map recency xs)"
proof -
  assume "distinct (map w_id xs)"
  then have "distinct (map (\<lambda>x. snd (recency x)) xs)"
    by (simp add: recency_def)
  then show ?thesis by (rule distinct_map_snd_comp)
qed

lemma newest_first_sorted:
  assumes "distinct (map w_id xs)"
  shows "sorted_wrt (\<lambda>a b. recency b < recency a) (newest_first xs)"
proof -
  have "sorted (map recency (sort_key recency xs))"
    by (rule sorted_sort_key)
  moreover have "distinct (map recency (sort_key recency xs))"
    using distinct_recency [OF assms] by (simp add: distinct_map)
  ultimately have "sorted_wrt (<) (map recency (sort_key recency xs))"
    by (simp add: strict_sorted_iff)
  then show ?thesis
    by (simp add: newest_first_def sorted_wrt_rev sorted_wrt_map)
qed

lemma listing_sorted:
  assumes pk: "primary_key d"
  shows "sorted_wrt newer (get_user_warns d c u)"
proof -
  have "distinct (map w_id (filter (of_pair c u) (warns d)))"
    using pk by (simp add: primary_key_def distinct_map_filter)
  from newest_first_sorted [OF this] show ?thesis
    by (simp add: get_user_warns_def sorted_wrt_map newer_iff view_recency_view)
qed

lemma listing_mset:
  "mset (get_user_warns d c u) = mset (map view (filter (of_pair c u) (warns d)))"
  by (simp add: get_user_warns_def mset_newest_first)

lemma view_recency_inj:
  assumes pk: "primary_key d"
  shows "inj_on view_recency (set (map view (warns d)))"
proof (rule inj_onI)
  fix a b assume a: "a \<in> set (map view (warns d))" and b: "b \<in> set (map view (warns d))"
    and e: "view_recency a = view_recency b"
  from a obtain r where r: "r \<in> set (warns d)" "a = view r" by auto
  from b obtain s where s: "s \<in> set (warns d)" "b = view s" by auto
  from e r s have "w_id r = w_id s"
    by (simp add: view_recency_view recency_def)
  moreover from pk have "inj_on w_id (set (warns d))"
    by (simp add: primary_key_def distinct_map)
  ultimately have "r = s" using r(1) s(1) by (auto dest: inj_onD)
  with r s show "a = b" by simp
qed

lemma sorted_newer_unique:
  assumes inj: "inj_on view_recency (set xs)"
    and sx: "sorted_wrt newer xs" and sy: "sorted_wrt newer ys" and m: "mset ys = mset xs"
  shows "ys = xs"
proof -
  from m have st: "set ys = set xs" by (rule mset_eq_setD)
  have "sorted_wrt (<) (rev (map view_recency xs))"
    using sx by (simp add: sorted_wrt_rev sorted_wrt_map newer_eq)
  moreover have "sorted_wrt (<) (rev (map view_recency ys))"
    using sy by (simp add: sorted_wrt_rev sorted_wrt_map newer_eq)
  moreover have "set (rev (map view_recency ys)) = set (rev (map view_recency xs))"
    using st by simp
  ultimately have "rev (map view_recency ys) = rev (map view_recency xs)"
    by (rule strict_sorted_equal)
  then have "map view_recency ys = map view_recency xs" by simp
  moreover have "inj_on view_recency (set ys \<union> set xs)"
    using inj st by simp
  ultimately show ?thesis
    by (simp add: inj_on_map_eq_map)
qed

text \<open>
  Claim C5. \<open>get_user_warns\<close> returns the records of the pair, each once, ordered newest
  first by \<open>created_at\<close> and by descending id among equal timestamps. The order leaves no
  freedom: every sequence of these records in that order is the sequence returned, so a
  second read of the same stored rows returns the same sequence.
\<close>

theorem get_user_warns_newest_first:
  assumes pk: "primary_key d"
  shows "mset (get_user_warns d c u) = mset (map view (filter (of_pair c u) (warns d))) \<and>
         sorted_wrt newer (get_user_warns d c u) \<and>
         (\<forall>ys. mset ys = mset (map view (filter (of_pair c u) (warns d))) \<and> sorted_wrt newer ys
               \<longrightarrow> ys = get_user_warns d c u)"
proof (intro conjI allI impI)
  show "mset (get_user_warns d c u) = mset (map view (filter (of_pair c u) (warns d)))"
    by (rule listing_mset)
  show "sorted_wrt newer (get_user_warns d c u)"
    by (rule listing_sorted [OF pk])
  fix ys
  assume a: "mset ys = mset (map view (filter (of_pair c u) (warns d))) \<and> sorted_wrt newer ys"
  have "set (get_user_warns d c u) \<subseteq> set (map view (warns d))"
    by (auto simp: get_user_warns_def set_newest_first)
  with view_recency_inj [OF pk] have inj: "inj_on view_recency (set (get_user_warns d c u))"
    by (rule inj_on_subset)
  from a have "mset ys = mset (get_user_warns d c u)"
    by (simp add: listing_mset)
  with inj listing_sorted [OF pk] a show "ys = get_user_warns d c u"
    by (intro sorted_newer_unique) simp_all
qed

theorem get_user_warns_newest_first_witness:
  "primary_key ex_ledger \<and>
   mset (get_user_warns ex_ledger 10 7) = mset (map view (filter (of_pair 10 7) (warns ex_ledger))) \<and>
   sorted_wrt newer (get_user_warns ex_ledger 10 7) \<and>
   get_user_warns ex_ledger 10 7 =
     [(5, ''warn'', ''offtopic'', ''2024-05-04T12:00:00'', Some ''admin''),
      (3, ''warn'', ''flood'', ''2024-05-02T09:30:00.250000'', Some ''admin''),
      (2, ''hard'', ''spam'', ''2024-05-02T09:30:00.250000'', Some ''admin''),
      (1, ''warn'', ''late'', ''2024-05-01T10:00:00'', Some ''admin'')]"
proof -
  have pk: "primary_key ex_ledger"
    by (simp add: primary_key_def ex_ledger_def ex_row_def)
  note th = get_user_warns_newest_first [OF pk, of 10 7]
  let ?zs = "[(5::nat, ''warn'', ''offtopic'', ''2024-05-04T12:00:00'', Some ''admin''),
      (3, ''warn'', ''flood'', ''2024-05-02T09:30:00.250000'', Some ''admin''),
      (2, ''hard'', ''spam'', ''2024-05-02T09:30:00.250000'', Some ''admin''),
      (1, ''warn'', ''late'', ''2024-05-01T10:00:00'', Some ''admin'')]"
  have m: "mset ?zs = mset (map view (filter (of_pair 10 7) (warns ex_ledger)))"
    by (simp add: ex_ledger_def ex_row_def of_pair_def view_def)
  have so: "sorted_wrt newer ?zs"
    by (simp add: newer_def view_created_at_def view_id_def)
  from th m so have "?zs = get_user_warns ex_ledger 10 7"
    by blast
  with th pk show ?thesis
    by simp
qed

subsection \<open>Full amnesty\<close>

lemma amnesty_full_listing: "get_user_warns (amnesty_full d c u) c u = []"
  by (simp add: get_user_warns_def amnesty_full_def newest_first_def)

lemma amnesty_full_other:
  "(c', u') \<noteq> (c, u) \<Longrightarrow>
   filter (of_pair c' u') (warns (amnesty_full d c u)) = filter (of_pair c' u') (warns d)"
  by (auto simp: amnesty_full_def of_pair_def intro: filter_cong)

text \<open>
  Claim C9. \<open>amnesty_full\<close> removes exactly the records of the pair: afterwards the listing
  of the pair is empty and its counts are (0, 0), the participants are untouched, and for
  every other pair the stored records, the listing and the counts are what they were.
\<close>

theorem amnesty_full_clears_pair:
  "get_user_warns (amnesty_full d c u) c u = [] \<and>
   get_user_counts (amnesty_full d c u) c u = (0, 0) \<and>
   warns (amnesty_full d c u) = filter (\<lambda>r. \<not> (w_chat_id r = c \<and> w_user_id r = u)) (warns d) \<and>
   participants (amnesty_full d c u) = participants d \<and>
   (\<forall>c' u'. (c', u') \<noteq> (c, u) \<longrightarrow>
      filter (of_pair c' u') (warns (amnesty_full d c u)) = filter (of_pair c' u') (warns d) \<and>
      get_user_warns (amnesty_full d c u) c' u' = get_user_warns d c' u' \<and>
      get_user_counts (amnesty_full d c u) c' u' = get_user_counts d c' u')"
proof -
  have other: "filter (of_pair c' u') (warns (amnesty_full d c u)) = filter (of_pair c' u') (warns d)"
    if "(c', u') \<noteq> (c, u)" for c' u'
    using that by (rule amnesty_full_other)
  have "get_user_counts (amnesty_full d c u) c u = (0, 0)"
    by (simp add: counts_listing amnesty_full_listing)
  moreover have "warns (amnesty_full d c u) = filter (\<lambda>r. \<not> (w_chat_id r = c \<and> w_user_id r = u)) (warns d)"
    by (simp add: amnesty_full_def of_pair_def)
  moreover have "participants (amnesty_full d c u) = participants d"
    by (simp add: amnesty_full_def)
  moreover have "get_user_warns (amnesty_full d c u) c' u' = get_user_warns d c' u'"
    if "(c', u') \<noteq> (c, u)" for c' u'
    by (simp only: get_user_warns_def other [OF that])
  moreover have "get_user_counts (amnesty_full d c u) c' u' = get_user_counts d c' u'"
    if "(c', u') \<noteq> (c, u)" for c' u'
    by (simp only: get_user_counts_def other [OF that])
  ultimately show ?thesis
    using other amnesty_full_listing [of d c u] by blast
qed

theorem amnesty_full_clears_pair_witness:
  "get_user_warns (amnesty_full ex_ledger 10 7) 10 7 = [] \<and>
   get_user_counts (amnesty_full ex_ledger 10 7) 10 7 = (0, 0) \<and>
   ((10::int), (8::int)) \<noteq> (10, 7) \<and>
   get_user_warns (amnesty_full ex_ledger 10 7) 10 8 = get_user_warns ex_ledger 10 8 \<and>
   get_user_counts (amnesty_full ex_ledger 10 7) 10 8 = get_user_counts ex_ledger 10 8"
proof -
  have ne: "((10::int), (8::int)) \<noteq> (10, 7)"
    by simp
  from amnesty_full_clears_pair [of ex_ledger 10 7] ne show ?thesis
    by blast
qed

section \<open>Properties of the access guard\<close>




section \<open>Properties of the participant directory\<close>

lemma find_participant_iff:
  "find_participant_by_username d c h \<noteq> None \<longleftrightarrow>
     (\<exists>r \<in> set (participants d). p_chat_id r = c \<and> p_username_lower r = Some h)"
proof (cases "filter (\<lambda>r. p_chat_id r = c \<and> p_username_lower r = Some h) (participants d)")
  case Nil
  then have "\<not> (\<exists>r \<in> set (participants d). p_chat_id r = c \<and> p_username_lower r = Some h)"
    by (simp add: filter_empty_conv)
  with Nil show ?thesis
    by (simp add: find_participant_by_username_def)
next
  case (Cons r rs)
  have "r \<in> set (filter (\<lambda>r. p_chat_id r = c \<and> p_username_lower r = Some h) (participants d))"
    unfolding Cons by simp
  then have "\<exists>r \<in> set (participants d). p_chat_id r = c \<and> p_username_lower r = Some h"
    by auto
  with Cons show ?thesis
    by (simp add: find_participant_by_username_def)
qed

lemma find_participant_first:
  "find_participant_by_username d c h = Some f \<Longrightarrow>
     \<exists>r \<in> set (participants d). p_chat_id r = c \<and> p_username_lower r = Some h \<and> f = found_of_row r"
proof -
  assume a: "find_participant_by_username d c h = Some f"
  then obtain r rs where
    e: "filter (\<lambda>r. p_chat_id r = c \<and> p_username_lower r = Some h) (participants d) = r # rs"
    and f: "f = found_of_row r"
    by (auto simp: find_participant_by_username_def split: list.splits)
  have "r \<in> set (filter (\<lambda>r. p_chat_id r = c \<and> p_username_lower r = Some h) (participants d))"
    unfolding e by simp
  with f show ?thesis by auto
qed

lemma set_upsert_row: "set (upsert_row r xs) \<subseteq> insert r (set xs)"
  by (induction xs) auto

lemma in_upsert_row: "r \<in> set (upsert_row r xs)"
  by (induction xs) auto

lemma upsert_row_other_chat:
  "p_chat_id r \<noteq> c \<Longrightarrow>
   filter (\<lambda>x. p_chat_id x = c \<and> P x) (upsert_row r xs) = filter (\<lambda>x. p_chat_id x = c \<and> P x) xs"
  by (induction xs) auto

lemma participants_upsert:
  "participants (participant_upsert d c (Some v) now) =
     upsert_row \<lparr>p_chat_id = c, p_user_id = u_id v, p_username = or_none (u_username v),
                 p_username_lower =
                   or_none (Some (lower (case or_none (u_username v) of None \<Rightarrow> [] | Some s \<Rightarrow> s))),
                 p_first_name = or_none (Some (u_first_name v)),
                 p_last_name = or_none (u_last_name v), p_updated_at = now\<rparr> (participants d)"
  by (simp add: participant_upsert_def Let_def)

lemma warns_upsert: "warns (participant_upsert d c usr now) = warns d"
  by (simp add: participant_upsert_def Let_def split: option.splits)

lemma warns_seq_upsert: "warns_seq (participant_upsert d c usr now) = warns_seq d"
  by (simp add: participant_upsert_def Let_def split: option.splits)

lemma lower_eq_Nil: "lower s = [] \<longleftrightarrow> s = []"
  by (simp add: lower_def)

lemma upsert_handle_row:
  assumes "u_username v = Some H" and "H \<noteq> []"
  shows "participants (participant_upsert d c (Some v) now) =
     upsert_row \<lparr>p_chat_id = c, p_user_id = u_id v, p_username = Some H,
                 p_username_lower = Some (lower H),
                 p_first_name = or_none (Some (u_first_name v)),
                 p_last_name = or_none (u_last_name v), p_updated_at = now\<rparr> (participants d)"
  using assms by (simp add: participants_upsert or_none_def lower_eq_Nil)

text \<open>
  Claim C8, as the code has it. A handle is found in a chat exactly when the directory
  holds a row of that chat with that lower-cased handle. After the upsert of a user with
  the handle \<open>H\<close> in chat \<open>A\<close>, the lookup of \<open>lower H\<close> in \<open>A\<close> finds a row; it yields that
  user's id when no row of another user in \<open>A\<close> carries the same lower-cased handle; and
  the upsert changes no lookup in another chat, where the handle is found only through a
  row of that chat.
\<close>

theorem handle_lookup_after_upsert:
  assumes H: "u_username v = Some H" and ne: "H \<noteq> []"
  shows "(\<forall>d0 c h. find_participant_by_username d0 c h \<noteq> None \<longleftrightarrow>
            (\<exists>r \<in> set (participants d0). p_chat_id r = c \<and> p_username_lower r = Some h)) \<and>
         find_participant_by_username (participant_upsert d A (Some v) now) A (lower H) \<noteq> None \<and>
         ((\<forall>r \<in> set (participants d). p_chat_id r = A \<and> p_username_lower r = Some (lower H)
               \<longrightarrow> p_user_id r = u_id v) \<longrightarrow>
            map_option f_id
              (find_participant_by_username (participant_upsert d A (Some v) now) A (lower H))
              = Some (u_id v)) \<and>
         (\<forall>B h. B \<noteq> A \<longrightarrow>
            find_participant_by_username (participant_upsert d A (Some v) now) B h =
            find_participant_by_username d B h)"
proof (intro conjI allI impI)
  let ?row = "\<lparr>p_chat_id = A, p_user_id = u_id v, p_username = Some H,
                 p_username_lower = Some (lower H),
                 p_first_name = or_none (Some (u_first_name v)),
                 p_last_name = or_none (u_last_name v), p_updated_at = now\<rparr>"
  let ?d = "participant_upsert d A (Some v) now"
  have ps: "participants ?d = upsert_row ?row (participants d)"
    by (rule upsert_handle_row [OF H ne])
  show "find_participant_by_username d0 c h \<noteq> None \<longleftrightarrow>
            (\<exists>r \<in> set (participants d0). p_chat_id r = c \<and> p_username_lower r = Some h)" for d0 c h
    by (rule find_participant_iff)
  have "?row \<in> set (participants ?d)"
    unfolding ps by (rule in_upsert_row)
  then have "\<exists>r \<in> set (participants ?d). p_chat_id r = A \<and> p_username_lower r = Some (lower H)"
    by (intro bexI [of _ ?row]) simp_all
  then show found: "find_participant_by_username ?d A (lower H) \<noteq> None"
    by (simp only: find_participant_iff)
  show "map_option f_id (find_participant_by_username ?d A (lower H)) = Some (u_id v)"
    if own: "\<forall>r \<in> set (participants d). p_chat_id r = A \<and> p_username_lower r = Some (lower H)
               \<longrightarrow> p_user_id r = u_id v"
  proof -
    from found obtain f where f: "find_participant_by_username ?d A (lower H) = Some f"
      by auto
    from find_participant_first [OF f] obtain r where
      r: "r \<in> set (participants ?d)" "p_chat_id r = A" "p_username_lower r = Some (lower H)"
        "f = found_of_row r"
      by auto
    from r(1) set_upsert_row [of ?row "participants d"] have "r = ?row \<or> r \<in> set (participants d)"
      unfolding ps by auto
    then have "p_user_id r = u_id v"
    proof
      assume "r = ?row"
      then have "p_user_id r = p_user_id ?row" by (rule arg_cong)
      then show ?thesis by simp
    next
      assume "r \<in> set (participants d)"
      with own r(2,3) show ?thesis by blast
    qed
    with f r(4) show ?thesis
      by (simp add: found_of_row_def)
  qed
  show "find_participant_by_username ?d B h = find_participant_by_username d B h" if "B \<noteq> A" for B h
  proof -
    have "filter (\<lambda>x. p_chat_id x = B \<and> p_username_lower x = Some h) (upsert_row ?row (participants d))
          = filter (\<lambda>x. p_chat_id x = B \<and> p_username_lower x = Some h) (participants d)"
      by (rule upsert_row_other_chat) (use that in simp)
    then show ?thesis
      by (simp only: find_participant_by_username_def ps)
  qed
qed

theorem handle_lookup_after_upsert_witness:
  "u_username ex_bob = Some ''Bob'' \<and> ''Bob'' \<noteq> [] \<and>
   map_option f_id
     (find_participant_by_username
        (participant_upsert db_init 10 (Some ex_bob) ''2024-05-05T10:00:00'') 10 (lower ''Bob''))
     = Some (u_id ex_bob) \<and>
   (11::int) \<noteq> 10 \<and>
   find_participant_by_username
     (participant_upsert db_init 10 (Some ex_bob) ''2024-05-05T10:00:00'') 11 (lower ''Bob'') =
   find_participant_by_username db_init 11 (lower ''Bob'')"
proof -
  have H: "u_username ex_bob = Some ''Bob''"
    by (simp add: ex_bob_def)
  have ne: "''Bob'' \<noteq> []"
    by simp
  have own: "\<forall>r \<in> set (participants db_init).
               p_chat_id r = 10 \<and> p_username_lower r = Some (lower ''Bob'') \<longrightarrow> p_user_id r = u_id ex_bob"
    by (simp add: db_init_def)
  have other: "(11::int) \<noteq> 10"
    by simp
  from handle_lookup_after_upsert [OF H ne, of db_init 10 "''2024-05-05T10:00:00''"] own other H ne
  show ?thesis
    by blast
qed

text \<open>
  The claim as the specification states it fails when another user's row in the chat still
  carries the handle: Rob (id 1001) was seen in chat 10 as \<open>@bob\<close>; after the upsert of Bob
  (id 2002) with the handle \<open>Bob\<close> in chat 10, the lookup of \<open>bob\<close> in chat 10 yields 1001.
\<close>

theorem stale_row_answers_lookup:
  "u_username ex_bob = Some ''Bob'' \<and> u_id ex_bob = 2002 \<and>
   map_option f_id
     (find_participant_by_username
        (participant_upsert ex_directory 10 (Some ex_bob) ''2024-05-05T10:00:00'') 10 (lower ''Bob''))
     = Some 1001"
  by code_simp

section \<open>Properties of the target resolver\<close>

lemma reply_author_iff:
  "reply_author m = Some a \<longleftrightarrow> (\<exists>r. m_reply_to_message m = Some r \<and> r_from_user r = Some a)"
  by (simp add: reply_author_def split: option.splits)

lemma text_mention_user_None:
  "text_mention_user m = None \<longleftrightarrow>
     \<not> (\<exists>e \<in> set (entities_of m). e_type e = ''text_mention'' \<and> e_user e \<noteq> None)"
proof -
  define P where "P = (\<lambda>ent :: message_entity. e_type ent = ''text_mention'' \<and> e_user ent \<noteq> None)"
  have tm: "text_mention_user m = (case find P (entities_of m) of None \<Rightarrow> None | Some ent \<Rightarrow> e_user ent)"
    by (simp only: text_mention_user_def P_def)
  have "text_mention_user m = None \<longleftrightarrow> \<not> (\<exists>e \<in> set (entities_of m). P e)"
  proof (cases "find P (entities_of m)")
    case None
    then have "\<not> (\<exists>e \<in> set (entities_of m). P e)"
      by (simp add: find_None_iff)
    with None tm show ?thesis by simp
  next
    case (Some e)
    then have "e \<in> set (entities_of m)" and pe: "P e"
      by (auto simp: find_Some_iff)
    moreover from pe have "e_user e \<noteq> None"
      by (simp add: P_def)
    ultimately show ?thesis
      using Some tm by auto
  qed
  then show ?thesis
    by (simp only: P_def)
qed

lemma text_mention_user_Some:
  "text_mention_user m = Some v \<Longrightarrow>
     \<exists>e \<in> set (entities_of m). e_type e = ''text_mention'' \<and> e_user e = Some v"
proof -
  assume a: "text_mention_user m = Some v"
  then obtain e where
    e: "find (\<lambda>ent. e_type ent = ''text_mention'' \<and> e_user ent \<noteq> None) (entities_of m) = Some e"
    and v: "e_user e = Some v"
    by (auto simp: text_mention_user_def split: option.splits)
  from e have "e \<in> set (entities_of m)" and "e_type e = ''text_mention''"
    by (auto simp: find_Some_iff)
  with v show ?thesis by blast
qed

lemma extract_mention_username_last:
  "extract_mention_username m =
     (let ms = filter (\<lambda>e. e_type e = ''mention'') (entities_of m)
      in if ms = [] then None
         else or_none (Some (strip (lstrip_at
                (slice (text_of m) (e_offset (last ms)) (e_offset (last ms) + e_length (last ms)))))))"
proof (cases "filter (\<lambda>e. e_type e = ''mention'') (entities_of m) = []")
  case True
  then show ?thesis
    by (simp add: extract_mention_username_def Let_def)
next
  case False
  then have "entities_of m \<noteq> []" by auto
  with False show ?thesis
    by (simp add: extract_mention_username_def Let_def last_map)
qed

text \<open>
  Claim C4. Resolution stops at the first strategy that applies. A reply whose author is
  known gives that author, whatever entities the message has. Without it, the user of the
  first \<open>text_mention\<close> entity that carries one is given. Without that, the text that the
  last \<open>mention\<close> entity delimits by offset and length, without leading \<open>@\<close> and outer white
  space, is lower-cased and looked up in the directory of the chat of the message. No
  target is returned exactly when all three fail.
\<close>

theorem extract_target_user_precedence:
  "(\<forall>a. reply_author m = Some a \<longrightarrow> extract_target_user d m = Some (User a)) \<and>
   (\<forall>v. reply_author m = None \<and> text_mention_user m = Some v \<longrightarrow>
        extract_target_user d m = Some (User v)) \<and>
   (reply_author m = None \<and> text_mention_user m = None \<longrightarrow>
      extract_target_user d m =
        (case extract_mention_username m of
           None \<Rightarrow> None
         | Some h \<Rightarrow> map_option Namespace (find_participant_by_username d (m_chat_id m) (lower h)))) \<and>
   (extract_target_user d m = None \<longleftrightarrow>
      reply_author m = None \<and> text_mention_user m = None \<and>
      (case extract_mention_username m of
         None \<Rightarrow> True
       | Some h \<Rightarrow> find_participant_by_username d (m_chat_id m) (lower h) = None)) \<and>
   (\<forall>a. reply_author m = Some a \<longleftrightarrow>
      (\<exists>r. m_reply_to_message m = Some r \<and> r_from_user r = Some a)) \<and>
   (\<forall>v. text_mention_user m = Some v \<longrightarrow>
      (\<exists>e \<in> set (entities_of m). e_type e = ''text_mention'' \<and> e_user e = Some v)) \<and>
   (text_mention_user m = None \<longleftrightarrow>
      \<not> (\<exists>e \<in> set (entities_of m). e_type e = ''text_mention'' \<and> e_user e \<noteq> None)) \<and>
   extract_mention_username m =
     (let ms = filter (\<lambda>e. e_type e = ''mention'') (entities_of m)
      in if ms = [] then None
         else or_none (Some (strip (lstrip_at
                (slice (text_of m) (e_offset (last ms)) (e_offset (last ms) + e_length (last ms)))))))"
proof (intro conjI allI)
  show "reply_author m = Some a \<longrightarrow> extract_target_user d m = Some (User a)" for a
    by (simp add: extract_target_user_def)
  show "reply_author m = None \<and> text_mention_user m = Some v \<longrightarrow>
        extract_target_user d m = Some (User v)" for v
    by (simp add: extract_target_user_def)
  show "reply_author m = None \<and> text_mention_user m = None \<longrightarrow>
      extract_target_user d m =
        (case extract_mention_username m of
           None \<Rightarrow> None
         | Some h \<Rightarrow> map_option Namespace (find_participant_by_username d (m_chat_id m) (lower h)))"
    by (simp add: extract_target_user_def split: option.splits)
  show "extract_target_user d m = None \<longleftrightarrow>
      reply_author m = None \<and> text_mention_user m = None \<and>
      (case extract_mention_username m of
         None \<Rightarrow> True
       | Some h \<Rightarrow> find_participant_by_username d (m_chat_id m) (lower h) = None)"
    by (simp add: extract_target_user_def split: option.splits)
  show "reply_author m = Some a \<longleftrightarrow>
      (\<exists>r. m_reply_to_message m = Some r \<and> r_from_user r = Some a)" for a
    by (rule reply_author_iff)
  show "text_mention_user m = Some v \<longrightarrow>
      (\<exists>e \<in> set (entities_of m). e_type e = ''text_mention'' \<and> e_user e = Some v)" for v
    using text_mention_user_Some [of m v] by blast
  show "text_mention_user m = None \<longleftrightarrow>
      \<not> (\<exists>e \<in> set (entities_of m). e_type e = ''text_mention'' \<and> e_user e \<noteq> None)"
    by (rule text_mention_user_None)
  show "extract_mention_username m =
     (let ms = filter (\<lambda>e. e_type e = ''mention'') (entities_of m)
      in if ms = [] then None
         else or_none (Some (strip (lstrip_at
                (slice (text_of m) (e_offset (last ms)) (e_offset (last ms) + e_length (last ms)))))))"
    by (rule extract_mention_username_last)
qed

theorem extract_target_user_precedence_witness:
  "reply_author ex_reply = Some ex_bob \<and>
   extract_mention_username ex_reply = Some ''bob'' \<and>
   find_participant_by_username ex_directory 10 (lower ''bob'') \<noteq> None \<and>
   extract_target_user ex_directory ex_reply = Some (User ex_bob)"
proof -
  have r: "reply_author ex_reply = Some ex_bob"
    by code_simp
  have "extract_mention_username ex_reply = Some ''bob''"
    by code_simp
  moreover have "find_participant_by_username ex_directory 10 (lower ''bob'') \<noteq> None"
    by code_simp
  moreover from extract_target_user_precedence [of ex_reply ex_directory] r
  have "extract_target_user ex_directory ex_reply = Some (User ex_bob)"
    by blast
  ultimately show ?thesis using r by simp
qed

section \<open>Properties of the command handlers\<close>

lemma warns_track: "warns (track_message_participants d m t1 t2) = warns d"
  by (simp add: track_message_participants_def Let_def warns_upsert split: option.splits)

lemma warns_seq_track: "warns_seq (track_message_participants d m t1 t2) = warns_seq d"
  by (simp add: track_message_participants_def Let_def warns_seq_upsert split: option.splits)



lemma not_allowed_denied:
  assumes s: "m_from_user m = Some sender" and na: "\<not> is_allowed (Some (u_id sender))"
  shows "handle cmd b clock m command d = answered d Access_denied"
proof (cases cmd)
  case Start
  then show ?thesis using s na by (simp add: on_start_def)
next
  case Help
  then show ?thesis using s na by (simp add: on_help_def)
next
  case Warn
  then show ?thesis using s na by (simp add: cmd_warn_def)
next
  case Hardwarn
  then show ?thesis using s na by (simp add: cmd_hardwarn_def)
next
  case Warns
  then show ?thesis using s na by (simp add: cmd_warns_def)
next
  case Allwarns
  then show ?thesis using s na by (simp add: cmd_allwarns_def)
next
  case Amnesty
  then show ?thesis using s na by (simp add: cmd_amnesty_def)
next
  case Fullamnesty
  then show ?thesis using s na by (simp add: cmd_full_amnesty_def)
qed

lemma not_admin_denied:
  assumes s: "m_from_user m = Some sender" and al: "is_allowed (Some (u_id sender))"
    and mu: "mutating cmd"
    and g: "m_chat_type m = ''group'' \<or> m_chat_type m = ''supergroup''"
    and na: "is_admin b (m_chat_id m) (u_id sender) = Inr False"
  shows "handle cmd b clock m command d =
           answered (track_message_participants d m (clock 0) (clock 1)) (admins_only_reply cmd)"
proof (cases cmd)
  case Warn
  then show ?thesis using s al g na by (auto simp: cmd_warn_def Let_def)
next
  case Hardwarn
  then show ?thesis using s al g na by (auto simp: cmd_hardwarn_def Let_def)
next
  case Amnesty
  then show ?thesis using s al g na by (auto simp: cmd_amnesty_def Let_def)
next
  case Fullamnesty
  then show ?thesis using s al g na by (auto simp: cmd_full_amnesty_def Let_def)
qed (use mu in simp_all)



text \<open>
  Claim C2, as the code has it. A sender who is not on the allow-list gets the denial from
  every command, and the database is left as it was. A sender on the allow-list who is no
  administrator gets the administrators-only denial from each command that issues or lifts
  warnings in a group; no warning record is created or deleted, and the database differs
  from the one before only by what \<open>track_message_participants\<close> wrote for this message.
\<close>

theorem access_denial_effects:
  assumes s: "m_from_user m = Some sender"
  shows "(\<not> is_allowed (Some (u_id sender)) \<longrightarrow>
            handle cmd b clock m command d = answered d Access_denied) \<and>
         (is_allowed (Some (u_id sender)) \<and> mutating cmd \<and>
          (m_chat_type m = ''group'' \<or> m_chat_type m = ''supergroup'') \<and>
          is_admin b (m_chat_id m) (u_id sender) = Inr False \<longrightarrow>
            handle cmd b clock m command d =
              answered (track_message_participants d m (clock 0) (clock 1)) (admins_only_reply cmd) \<and>
            warns (o_db (handle cmd b clock m command d)) = warns d \<and>
            warns_seq (o_db (handle cmd b clock m command d)) = warns_seq d)"
proof (intro conjI impI)
  assume "\<not> is_allowed (Some (u_id sender))"
  with s show "handle cmd b clock m command d = answered d Access_denied"
    by (rule not_allowed_denied)
next
  assume a: "is_allowed (Some (u_id sender)) \<and> mutating cmd \<and>
          (m_chat_type m = ''group'' \<or> m_chat_type m = ''supergroup'') \<and>
          is_admin b (m_chat_id m) (u_id sender) = Inr False"
  then have al: "is_allowed (Some (u_id sender))" and mu: "mutating cmd"
    and g: "m_chat_type m = ''group'' \<or> m_chat_type m = ''supergroup''"
    and na: "is_admin b (m_chat_id m) (u_id sender) = Inr False"
    by blast+
  have h: "handle cmd b clock m command d =
              answered (track_message_participants d m (clock 0) (clock 1)) (admins_only_reply cmd)"
    by (rule not_admin_denied [OF s al mu g na])
  then show "handle cmd b clock m command d =
              answered (track_message_participants d m (clock 0) (clock 1)) (admins_only_reply cmd)" .
  show "warns (o_db (handle cmd b clock m command d)) = warns d"
    by (simp add: h answered_def warns_track)
  show "warns_seq (o_db (handle cmd b clock m command d)) = warns_seq d"
    by (simp add: h answered_def warns_seq_track)
qed

theorem access_denial_effects_witness:
  "m_from_user (ex_bare ''/warn'') = Some ex_ann \<and>
   is_allowed (Some (u_id ex_ann)) \<and> mutating Warn \<and>
   (m_chat_type (ex_bare ''/warn'') = ''group'' \<or> m_chat_type (ex_bare ''/warn'') = ''supergroup'') \<and>
   is_admin ex_members (m_chat_id (ex_bare ''/warn'')) (u_id ex_ann) = Inr False \<and>
   handle Warn ex_members ex_clock (ex_bare ''/warn'') None ex_ledger =
     answered (track_message_participants ex_ledger (ex_bare ''/warn'') (ex_clock 0) (ex_clock 1))
       Admins_only_warn \<and>
   warns (o_db (handle Warn ex_members ex_clock (ex_bare ''/warn'') None ex_ledger)) = warns ex_ledger \<and>
   m_from_user ((ex_bare ''/warn'')\<lparr>m_from_user := Some ex_bob\<rparr>) = Some ex_bob \<and>
   \<not> is_allowed (Some (u_id ex_bob)) \<and>
   handle Warn ex_admins ex_clock ((ex_bare ''/warn'')\<lparr>m_from_user := Some ex_bob\<rparr>) None ex_ledger =
     answered ex_ledger Access_denied"
proof -
  have s: "m_from_user (ex_bare ''/warn'') = Some ex_ann"
    by (simp add: ex_bare_def)
  have al: "is_allowed (Some (u_id ex_ann))"
    by (simp add: is_allowed_def ALLOWED_USER_IDS_def ex_ann_def)
  have mu: "mutating Warn"
    by simp
  have g: "m_chat_type (ex_bare ''/warn'') = ''group'' \<or> m_chat_type (ex_bare ''/warn'') = ''supergroup''"
    by (simp add: ex_bare_def)
  have na: "is_admin ex_members (m_chat_id (ex_bare ''/warn'')) (u_id ex_ann) = Inr False"
    by (simp add: is_admin_def ex_members_def)
  have s': "m_from_user ((ex_bare ''/warn'')\<lparr>m_from_user := Some ex_bob\<rparr>) = Some ex_bob"
    by simp
  have nal: "\<not> is_allowed (Some (u_id ex_bob))"
    by (simp add: is_allowed_def ALLOWED_USER_IDS_def ex_bob_def)
  have r: "admins_only_reply Warn = Admins_only_warn"
    by simp
  from access_denial_effects [OF s, of Warn ex_members ex_clock None ex_ledger] al mu g na
  have "handle Warn ex_members ex_clock (ex_bare ''/warn'') None ex_ledger =
          answered (track_message_participants ex_ledger (ex_bare ''/warn'') (ex_clock 0) (ex_clock 1))
            Admins_only_warn \<and>
        warns (o_db (handle Warn ex_members ex_clock (ex_bare ''/warn'') None ex_ledger)) = warns ex_ledger"
    unfolding r by blast
  moreover from access_denial_effects [OF s', of Warn ex_admins ex_clock None ex_ledger] nal
  have "handle Warn ex_admins ex_clock ((ex_bare ''/warn'')\<lparr>m_from_user := Some ex_bob\<rparr>) None ex_ledger =
          answered ex_ledger Access_denied"
    by blast
  ultimately show ?thesis
    using s al mu g na s' nal by blast
qed

text \<open>
  The claim as the specification states it fails for the denial of a sender who is no
  administrator: the handler has written the sender's row to the participant directory
  before it asks the platform.
\<close>

theorem admin_denial_writes_directory:
  "is_allowed (Some (u_id ex_ann)) \<and>
   is_admin ex_members 10 (u_id ex_ann) = Inr False \<and>
   o_replies (handle Warn ex_members ex_clock (ex_bare ''/warn'') None db_init) = [Admins_only_warn] \<and>
   o_db (handle Warn ex_members ex_clock (ex_bare ''/warn'') None db_init) \<noteq> db_init \<and>
   participants (o_db (handle Warn ex_members ex_clock (ex_bare ''/warn'') None db_init)) =
     [\<lparr>p_chat_id = 10, p_user_id = 578664673, p_username = Some ''Ann_A'',
       p_username_lower = Some ''ann_a'', p_first_name = Some ''Ann'', p_last_name = None,
       p_updated_at = ''2024-05-05T10:00:00''\<rparr>]"
  by code_simp




subsection \<open>The scope argument of the amnesty command\<close>







section \<open>The constraints of the schema hold in every reachable database\<close>

text \<open>
  The empty database satisfies the primary key and the check on the kind, and every
  operation of the ledger keeps both. A count beyond 64 bits makes \<open>amnesty_partial\<close> raise.
\<close>

lemma le_fold_max: "x \<in> set xs \<Longrightarrow> x \<le> fold max xs (a::nat)"
proof (induction xs arbitrary: a)
  case Nil
  then show ?case by simp
next
  case (Cons y ys)
  have mono: "b \<le> fold max ys b" for b :: nat
    by (induction ys arbitrary: b) (auto intro: order_trans [OF max.cobounded2])
  show ?case
  proof (cases "x = y")
    case True
    have "y \<le> max y a" by simp
    also have "\<dots> \<le> fold max ys (max y a)" by (rule mono)
    finally show ?thesis using True by simp
  next
    case False
    with Cons.prems have "x \<in> set ys" by simp
    then show ?thesis by (simp add: Cons.IH)
  qed
qed

lemma next_warn_id_fresh: "next_warn_id d \<notin> set (map w_id (warns d))"
proof
  assume "next_warn_id d \<in> set (map w_id (warns d))"
  then have "next_warn_id d \<le> fold max (map w_id (warns d)) (warns_seq d)"
    by (rule le_fold_max)
  then show False by (simp add: next_warn_id_def)
qed

lemma constraints_db_init: "primary_key db_init \<and> check_kind db_init"
  by (simp add: primary_key_def check_kind_def db_init_def)

lemma constraints_add_warn:
  assumes "primary_key d" and "check_kind d"
    and "add_warn d c u name kind reason by_id by_name now = Inr d'"
  shows "primary_key d' \<and> check_kind d'"
proof -
  from assms(3) have k: "kind = ''warn'' \<or> kind = ''hard''"
    by (auto simp: add_warn_def split: if_splits)
  with assms(3) have w: "warns d' = warns d @
      [\<lparr>w_id = next_warn_id d, w_chat_id = c, w_user_id = u, w_user_name = name,
        w_warn_type = kind, w_reason = (case reason of None \<Rightarrow> [] | Some r \<Rightarrow> r),
        w_given_by_id = by_id, w_given_by_name = by_name, w_created_at = now\<rparr>]"
    by (auto simp: add_warn_def)
  have "primary_key d'"
    using assms(1) next_warn_id_fresh [of d] by (simp add: primary_key_def w)
  moreover have "check_kind d'"
    using assms(2) k by (auto simp: check_kind_def w)
  ultimately show ?thesis ..
qed

lemma constraints_add_warns:
  "primary_key d \<Longrightarrow> check_kind d \<Longrightarrow> primary_key (add_warns d xs) \<and> check_kind (add_warns d xs)"
proof (induction xs arbitrary: d)
  case Nil
  then show ?case by simp
next
  case (Cons x xs)
  have "primary_key (add_warn_call d x) \<and> check_kind (add_warn_call d x)"
  proof (cases "add_warn d (call_chat x) (call_user x) (call_name x) (call_kind x) (call_reason x)
             (call_by_id x) (call_by_name x) (call_now x)")
    case (Inl e)
    with Cons.prems show ?thesis by (simp add: add_warn_call_def)
  next
    case (Inr d')
    from constraints_add_warn [OF Cons.prems Inr] Inr show ?thesis
      by (simp add: add_warn_call_def)
  qed
  then show ?case by (simp add: Cons.IH)
qed

lemma constraints_amnesty_partial:
  assumes "primary_key d" and "check_kind d" and "amnesty_partial d c u n kind = Inr d'"
  shows "primary_key d' \<and> check_kind d'"
proof -
  from assms(3) have f: "fits_int64 n"
    by (auto simp: amnesty_partial_def split: if_splits)
  from assms(3) have "d' = d\<lparr>warns := filter (\<lambda>r. w_id r \<notin> set (deleted_ids d c u n kind)) (warns d)\<rparr>"
    by (simp add: amnesty_partial_eq [OF f])
  with primary_key_filter [OF assms(1)] check_kind_filter [OF assms(2)] show ?thesis
    by simp
qed

lemma constraints_amnesty_full:
  "primary_key d \<Longrightarrow> check_kind d \<Longrightarrow>
   primary_key (amnesty_full d c u) \<and> check_kind (amnesty_full d c u)"
  by (simp add: amnesty_full_def primary_key_filter check_kind_filter)

lemma amnesty_partial_overflow:
  "2 ^ 63 \<le> n \<Longrightarrow> amnesty_partial d c u n kind = Inl OverflowError"
  by (simp add: amnesty_partial_def fits_int64_def)

end
